theory Spec2Isabelle
  imports Complex_Main
begin

section \<open>JavaScript strings\<close>

text \<open>
  A JavaScript string is represented by a \<open>string\<close>.  The hotkey handler splits
  strings at the character \<open>+\<close>, compares them and tests them for emptiness; all
  the case folding it does goes through \<open>String.prototype.toLowerCase\<close>, which belongs
  to the JavaScript engine and not to this program.  The handler therefore takes that
  function as its parameter \<open>lower\<close>, and nothing is assumed about it.
\<close>

text \<open>\<open>s.split(sep)\<close> for a one-character separator: the result is never empty.\<close>

fun split_on :: "char \<Rightarrow> string \<Rightarrow> string list" where
  "split_on sep [] = [[]]"
| "split_on sep (c # cs) =
     (if c = sep then [] # split_on sep cs
      else (case split_on sep cs of
              [] \<Rightarrow> [[c]]
            | w # ws \<Rightarrow> (c # w) # ws))"

text \<open>
  What \<open>toLowerCase\<close> does to a string of ASCII characters: the letters \<open>A\<close> to \<open>Z\<close>
  become \<open>a\<close> to \<open>z\<close>.  It serves to run the handler on ASCII examples, where it
  agrees with the engine's function.
\<close>

definition ascii_lower_char :: "char \<Rightarrow> char" where
  "ascii_lower_char c =
     (let n = (of_char c :: nat) in if 65 \<le> n \<and> n \<le> 90 then char_of (n + 32) else c)"

definition ascii_lower :: "string \<Rightarrow> string" where
  "ascii_lower s = map ascii_lower_char s"

section \<open>hooks/useHotkeys.ts\<close>

record KeyboardEvent =
  ctrlKey :: bool
  shiftKey :: bool
  altKey :: bool
  metaKey :: bool
  key :: string

text \<open>What the handler does to the outside: \<open>event.preventDefault()\<close> and \<open>callback()\<close>.\<close>

datatype effect = PreventDefault | Callback

definition modifier_names :: "string list" where
  "modifier_names = [''ctrl'', ''shift'', ''alt'']"

text \<open>\<open>keys.find(k => !['ctrl', 'shift', 'alt'].includes(k))\<close>\<close>

definition mainKey_of :: "string list \<Rightarrow> string option" where
  "mainKey_of keys = List.find (\<lambda>k. k \<notin> set modifier_names) keys"

text \<open>
  The array \<open>pressed\<close> as it stands before the final test.  An undefined or empty
  \<open>mainKey\<close> is falsy, so nothing is pushed for it.
\<close>

definition pressed_of :: "(string \<Rightarrow> string) \<Rightarrow> string list \<Rightarrow> KeyboardEvent \<Rightarrow> bool list" where
  "pressed_of lower keys event =
     (if ''ctrl'' \<in> set keys then [ctrlKey event] else []) @
     (if ''shift'' \<in> set keys then [shiftKey event] else []) @
     (if ''alt'' \<in> set keys then [altKey event] else []) @
     (case mainKey_of keys of
        None \<Rightarrow> []
      | Some mainKey \<Rightarrow>
          if mainKey \<noteq> [] \<and> lower (key event) = mainKey then [True]
          else if mainKey = [] then []
          else [False])"

definition handleKeyDown :: "(string \<Rightarrow> string) \<Rightarrow> string \<Rightarrow> KeyboardEvent \<Rightarrow> effect list" where
  "handleKeyDown lower keyCombo event =
     (let keys = split_on (CHR ''+'') (lower keyCombo);
          pressed = pressed_of lower keys event
      in if list_all (\<lambda>p. p) pressed \<and> length pressed = length keys
         then [PreventDefault, Callback]
         else [])"

subsection \<open>The chord as the specification describes it\<close>

text \<open>
  A chord is a set of modifier keys plus one primary key, written
  \<open>modifier+modifier+key\<close> and read without regard to case: its parts are the
  pieces between the \<open>+\<close> signs of the lower-cased description.  The definitions
  below say what a chord names and when an event matches it, without the handler's
  bookkeeping.
\<close>

definition chord_parts :: "(string \<Rightarrow> string) \<Rightarrow> string \<Rightarrow> string list" where
  "chord_parts lower keyCombo = split_on (CHR ''+'') (lower keyCombo)"

definition names_modifier :: "(string \<Rightarrow> string) \<Rightarrow> string \<Rightarrow> string \<Rightarrow> bool" where
  "names_modifier lower keyCombo m \<longleftrightarrow>
     m \<in> set modifier_names \<and> m \<in> set (chord_parts lower keyCombo)"

definition primary_keys :: "(string \<Rightarrow> string) \<Rightarrow> string \<Rightarrow> string list" where
  "primary_keys lower keyCombo =
     filter (\<lambda>p. p \<notin> set modifier_names) (chord_parts lower keyCombo)"

text \<open>
  A well-formed chord: no part is written twice, and exactly one part, a non-empty
  one, is not a modifier.
\<close>

definition is_chord :: "(string \<Rightarrow> string) \<Rightarrow> string \<Rightarrow> bool" where
  "is_chord lower keyCombo \<longleftrightarrow>
     distinct (chord_parts lower keyCombo) \<and>
     length (primary_keys lower keyCombo) = 1 \<and>
     [] \<notin> set (primary_keys lower keyCombo)"

definition modifier_pressed :: "KeyboardEvent \<Rightarrow> string \<Rightarrow> bool" where
  "modifier_pressed event m =
     (if m = ''ctrl'' then ctrlKey event
      else if m = ''shift'' then shiftKey event
      else if m = ''alt'' then altKey event
      else False)"

text \<open>
  Every modifier the chord names is reported pressed, and the event's key equals the
  chord's primary key once both are lower-cased.
\<close>

definition chord_matches :: "(string \<Rightarrow> string) \<Rightarrow> string \<Rightarrow> KeyboardEvent \<Rightarrow> bool" where
  "chord_matches lower keyCombo event \<longleftrightarrow>
     list_all (\<lambda>m. names_modifier lower keyCombo m \<longrightarrow> modifier_pressed event m)
       modifier_names \<and>
     list_all (\<lambda>k. lower (key event) = k) (primary_keys lower keyCombo)"

section \<open>components/ScreenshotEditor.tsx\<close>

datatype DrawTool = PEN | RECTANGLE | ARROW | TEXT

text \<open>The interface \<open>Point\<close> of \<open>types.ts\<close>, with fields \<open>x\<close> and \<open>y\<close>.\<close>

record Point =
  xcoord :: real
  ycoord :: real

subsection \<open>The browser's canvas\<close>

text \<open>
  The segments of the current path, and the painting operations of a 2D context.
  An \<open>ImageData\<close> is the content of the whole canvas; it is represented by the
  painting operations that produced it, oldest first, so that \<open>getImageData\<close> copies
  that sequence and \<open>putImageData\<close> at the origin replaces it.
\<close>

datatype path_cmd =
    MoveTo real real
  | LineTo real real
  | RectPath real real real real

datatype paint =
    DrawImage string real real
  | Stroke "path_cmd list" string int string string

type_synonym ImageData = "paint list"

record Context2D =
  pixels :: ImageData
  path :: "path_cmd list"
  strokeStyle :: string
  ctxLineWidth :: int
  lineCap :: string
  lineJoin :: string

record Canvas =
  canvasWidth :: real
  canvasHeight :: real
  rectLeft :: real
  rectTop :: real
  ctx2d :: "Context2D option"

text \<open>A context as the browser hands it out, and as it is again after the canvas is resized.\<close>

definition fresh_context :: Context2D where
  "fresh_context =
     \<lparr>pixels = [], path = [], strokeStyle = ''#000000'', ctxLineWidth = 1,
      lineCap = ''butt'', lineJoin = ''miter''\<rparr>"

definition beginPath :: "Context2D \<Rightarrow> Context2D" where
  "beginPath c = c\<lparr>path := []\<rparr>"

definition moveTo :: "real \<Rightarrow> real \<Rightarrow> Context2D \<Rightarrow> Context2D" where
  "moveTo a b c = c\<lparr>path := path c @ [MoveTo a b]\<rparr>"

definition lineTo :: "real \<Rightarrow> real \<Rightarrow> Context2D \<Rightarrow> Context2D" where
  "lineTo a b c = c\<lparr>path := path c @ [LineTo a b]\<rparr>"

definition rect :: "real \<Rightarrow> real \<Rightarrow> real \<Rightarrow> real \<Rightarrow> Context2D \<Rightarrow> Context2D" where
  "rect a b w h c = c\<lparr>path := path c @ [RectPath a b w h]\<rparr>"

definition stroke :: "Context2D \<Rightarrow> Context2D" where
  "stroke c =
     c\<lparr>pixels := pixels c @ [Stroke (path c) (strokeStyle c) (ctxLineWidth c) (lineCap c) (lineJoin c)]\<rparr>"

definition putImageData :: "ImageData \<Rightarrow> Context2D \<Rightarrow> Context2D" where
  "putImageData img c = c\<lparr>pixels := img\<rparr>"

definition getImageData :: "Context2D \<Rightarrow> ImageData" where
  "getImageData c = pixels c"

definition drawImage :: "string \<Rightarrow> real \<Rightarrow> real \<Rightarrow> Context2D \<Rightarrow> Context2D" where
  "drawImage source w h c = c\<lparr>pixels := pixels c @ [DrawImage source w h]\<rparr>"

text \<open>\<open>Math.atan2(y, x)\<close>, signed zeros apart.\<close>

definition atan2 :: "real \<Rightarrow> real \<Rightarrow> real" where
  "atan2 b a =
     (if 0 < a then arctan (b / a)
      else if a < 0 \<and> 0 \<le> b then arctan (b / a) + pi
      else if a < 0 then arctan (b / a) - pi
      else if 0 < b then pi / 2
      else if b < 0 then - (pi / 2)
      else 0)"

subsection \<open>The editor's state\<close>

record HTMLImage =
  imgSrc :: string
  imgWidth :: real
  imgHeight :: real

record Container =
  clientWidth :: real
  clientHeight :: real

text \<open>
  The component's \<open>useState\<close> cells and its two refs.  \<open>canvasRef\<close> is \<open>None\<close> while
  \<open>canvasRef.current\<close> is null; the \<open>ctx2d\<close> of a canvas is \<open>None\<close> when
  \<open>getContext('2d')\<close> returns null.
\<close>

record Editor =
  canvasRef :: "Canvas option"
  containerRef :: "Container option"
  selectedTool :: DrawTool
  color :: string
  lineWidth :: int
  isDrawing :: bool
  startPoint :: "Point option"
  history :: "ImageData list"
  originalImage :: "HTMLImage option"

text \<open>The state in which the component mounts.\<close>

definition mounted :: "Canvas \<Rightarrow> Container \<Rightarrow> Editor" where
  "mounted cv box =
     \<lparr>canvasRef = Some cv, containerRef = Some box, selectedTool = PEN,
      color = ''#ef4444'', lineWidth = 4, isDrawing = False, startPoint = None,
      history = [], originalImage = None\<rparr>"

text \<open>A mouse event, or a touch event with its list \<open>touches\<close> of client positions.\<close>

datatype PointerEvent = Mouse real real | Touch "(real \<times> real) list"

text \<open>\<open>xs.slice(-n)\<close>: the last \<open>n\<close> elements, all of them when there are fewer.\<close>

definition slice_last :: "nat \<Rightarrow> 'a list \<Rightarrow> 'a list" where
  "slice_last n xs = drop (length xs - n) xs"

text \<open>Runs a sequence of context calls on the canvas's context; the caller has checked it exists.\<close>

definition on_context :: "(Context2D \<Rightarrow> Context2D) \<Rightarrow> Editor \<Rightarrow> Editor" where
  "on_context f e =
     (case canvasRef e of
        None \<Rightarrow> e
      | Some cv \<Rightarrow>
          (case ctx2d cv of
             None \<Rightarrow> e
           | Some c \<Rightarrow> e\<lparr>canvasRef := Some (cv\<lparr>ctx2d := Some (f c)\<rparr>)\<rparr>))"

text \<open>The context the handlers obtain from \<open>canvasRef\<close>, and what is painted on the canvas.\<close>

definition current_context :: "Editor \<Rightarrow> Context2D option" where
  "current_context e = (case canvasRef e of None \<Rightarrow> None | Some cv \<Rightarrow> ctx2d cv)"

definition canvas_pixels :: "Editor \<Rightarrow> ImageData option" where
  "canvas_pixels e = map_option pixels (current_context e)"

definition saveState :: "Editor \<Rightarrow> Editor" where
  "saveState e =
     (case canvasRef e of
        None \<Rightarrow> e
      | Some cv \<Rightarrow>
          (case ctx2d cv of
             None \<Rightarrow> e
           | Some c \<Rightarrow> e\<lparr>history := slice_last 10 (history e) @ [getImageData c]\<rparr>))"

text \<open>
  \<open>getCoordinates\<close>; \<open>None\<close> stands for the TypeError of reading \<open>touches[0].clientX\<close>
  on an empty touch list.
\<close>

definition getCoordinates :: "PointerEvent \<Rightarrow> Editor \<Rightarrow> Point option" where
  "getCoordinates ev e =
     (case canvasRef e of
        None \<Rightarrow> Some \<lparr>xcoord = 0, ycoord = 0\<rparr>
      | Some cv \<Rightarrow>
          (case ev of
             Mouse clientX clientY \<Rightarrow>
               Some \<lparr>xcoord = clientX - rectLeft cv, ycoord = clientY - rectTop cv\<rparr>
           | Touch [] \<Rightarrow> None
           | Touch ((clientX, clientY) # _) \<Rightarrow>
               Some \<lparr>xcoord = clientX - rectLeft cv, ycoord = clientY - rectTop cv\<rparr>))"

text \<open>
  The handler of the image's \<open>load\<close> event, installed by the first effect.  Assigning
  \<open>canvas.width\<close> resets the context.  The ratio is only computed for an image that has
  loaded, whose width and height are positive.
\<close>

definition onload :: "HTMLImage \<Rightarrow> Editor \<Rightarrow> Editor" where
  "onload img e =
     (let e1 = e\<lparr>originalImage := Some img\<rparr> in
      case (canvasRef e1, containerRef e1) of
        (Some cv, Some box) \<Rightarrow>
          (let maxWidth = clientWidth box - 40;
               maxHeight = clientHeight box - 100;
               ratio = min (maxWidth / imgWidth img) (maxHeight / imgHeight img);
               scaled = (imgWidth img > maxWidth \<or> imgHeight img > maxHeight);
               width = (if scaled then imgWidth img * ratio else imgWidth img);
               height = (if scaled then imgHeight img * ratio else imgHeight img);
               cv1 = cv\<lparr>canvasWidth := width, canvasHeight := height,
                        ctx2d := map_option (\<lambda>_. fresh_context) (ctx2d cv)\<rparr>
           in case ctx2d cv1 of
                None \<Rightarrow> e1\<lparr>canvasRef := Some cv1\<rparr>
              | Some c \<Rightarrow>
                  saveState
                    (e1\<lparr>canvasRef :=
                          Some (cv1\<lparr>ctx2d := Some (drawImage (imgSrc img) width height c)\<rparr>)\<rparr>))
      | _ \<Rightarrow> e1)"

definition startDrawing :: "PointerEvent \<Rightarrow> Editor \<Rightarrow> Editor" where
  "startDrawing ev e =
     (let e1 = e\<lparr>isDrawing := True\<rparr> in
      case getCoordinates ev e of
        None \<Rightarrow> e1
      | Some point \<Rightarrow>
          on_context
            (\<lambda>c. (moveTo (xcoord point) (ycoord point) (beginPath c))
                    \<lparr>strokeStyle := color e, ctxLineWidth := lineWidth e,
                     lineCap := ''round'', lineJoin := ''round''\<rparr>)
            (e1\<lparr>startPoint := Some point\<rparr>))"

text \<open>The two branches of \<open>draw\<close> that paint a preview, as sequences of context calls.\<close>

definition draw_rectangle :: "Point \<Rightarrow> Point \<Rightarrow> Context2D \<Rightarrow> Context2D" where
  "draw_rectangle sp cp c =
     stroke (rect (xcoord sp) (ycoord sp) (xcoord cp - xcoord sp) (ycoord cp - ycoord sp) c)"

definition draw_arrow :: "int \<Rightarrow> Point \<Rightarrow> Point \<Rightarrow> Context2D \<Rightarrow> Context2D" where
  "draw_arrow lw sp cp c =
     (let c1 = stroke (lineTo (xcoord cp) (ycoord cp)
                        (moveTo (xcoord sp) (ycoord sp) (beginPath c)));
          angle = atan2 (ycoord cp - ycoord sp) (xcoord cp - xcoord sp);
          headLength = real_of_int (lw * 4);
          c2 = moveTo (xcoord cp) (ycoord cp) (beginPath c1);
          c3 = lineTo (xcoord cp - headLength * cos (angle - pi / 6))
                      (ycoord cp - headLength * sin (angle - pi / 6)) c2;
          c4 = moveTo (xcoord cp) (ycoord cp) c3;
          c5 = lineTo (xcoord cp - headLength * cos (angle + pi / 6))
                      (ycoord cp - headLength * sin (angle + pi / 6)) c4
      in stroke c5)"

definition draw :: "PointerEvent \<Rightarrow> Editor \<Rightarrow> Editor" where
  "draw ev e =
     (if \<not> isDrawing e then e
      else case startPoint e of
        None \<Rightarrow> e
      | Some sp \<Rightarrow>
          (case canvasRef e of
             None \<Rightarrow> e
           | Some cv \<Rightarrow>
               (case ctx2d cv of
                  None \<Rightarrow> e
                | Some _ \<Rightarrow>
                    (case getCoordinates ev e of
                       None \<Rightarrow> e
                     | Some currentPoint \<Rightarrow>
                         if selectedTool e = PEN then
                           on_context
                             (\<lambda>c. stroke (lineTo (xcoord currentPoint) (ycoord currentPoint) c)) e
                         else if selectedTool e = RECTANGLE \<or> selectedTool e = ARROW then
                           on_context
                             (\<lambda>c.
                                let c1 = (if history e = [] then c
                                          else putImageData (last (history e)) c);
                                    c2 = (beginPath c1)
                                           \<lparr>strokeStyle := color e, ctxLineWidth := lineWidth e\<rparr>
                                in if selectedTool e = RECTANGLE
                                   then draw_rectangle sp currentPoint c2
                                   else draw_arrow (lineWidth e) sp currentPoint c2) e
                         else e))))"

definition endDrawing :: "Editor \<Rightarrow> Editor" where
  "endDrawing e =
     (if \<not> isDrawing e then e
      else saveState (e\<lparr>isDrawing := False, startPoint := None\<rparr>))"

definition undo :: "Editor \<Rightarrow> Editor" where
  "undo e =
     (if length (history e) > 1 then
        (let newHistory = butlast (history e);
             previousState = last newHistory
         in on_context (putImageData previousState) (e\<lparr>history := newHistory\<rparr>))
      else e)"

subsection \<open>Gestures and event sequences\<close>

text \<open>Pointer moves in the order they arrive, each handled by \<open>draw\<close>.\<close>

definition moves :: "PointerEvent list \<Rightarrow> Editor \<Rightarrow> Editor" where
  "moves evs e = foldl (\<lambda>s ev. draw ev s) e evs"

text \<open>A drawing gesture: pointer down, the moves, release.\<close>

definition gesture :: "PointerEvent \<Rightarrow> PointerEvent list \<Rightarrow> Editor \<Rightarrow> Editor" where
  "gesture down evs e = endDrawing (moves evs (startDrawing down e))"

definition strokes :: "(PointerEvent \<times> PointerEvent list) list \<Rightarrow> Editor \<Rightarrow> Editor" where
  "strokes gs e = foldl (\<lambda>s g. gesture (fst g) (snd g) s) e gs"

text \<open>Everything the editor reacts to, and its reaction.\<close>

datatype EditorEvent =
    ImageLoaded HTMLImage
  | PointerDown PointerEvent
  | PointerMove PointerEvent
  | PointerUp
  | UndoClicked
  | ToolSelected DrawTool
  | ColorChanged string
  | LineWidthChanged int

fun editor_step :: "Editor \<Rightarrow> EditorEvent \<Rightarrow> Editor" where
  "editor_step e (ImageLoaded img) = onload img e"
| "editor_step e (PointerDown ev) = startDrawing ev e"
| "editor_step e (PointerMove ev) = draw ev e"
| "editor_step e PointerUp = endDrawing e"
| "editor_step e UndoClicked = undo e"
| "editor_step e (ToolSelected t) = e\<lparr>selectedTool := t\<rparr>"
| "editor_step e (ColorChanged c) = e\<lparr>color := c\<rparr>"
| "editor_step e (LineWidthChanged w) = e\<lparr>lineWidth := w\<rparr>"

definition editor_run :: "EditorEvent list \<Rightarrow> Editor \<Rightarrow> Editor" where
  "editor_run evs e = foldl editor_step e evs"

subsection \<open>The previews as the specification describes them\<close>




text \<open>The context strokes with round caps and joins, as \<open>startDrawing\<close> sets it up.\<close>

definition round_caps :: "Editor \<Rightarrow> bool" where
  "round_caps e \<longleftrightarrow>
     (case current_context e of
        None \<Rightarrow> False
      | Some c \<Rightarrow> lineCap c = ''round'' \<and> lineJoin c = ''round'')"

section \<open>App.tsx\<close>

datatype AppMode = IDLE | RECORDING | SCREENSHOT_PREVIEW | SETTINGS | GALLERY

text \<open>
  \<open>updateSettings\<close> takes its value as \<open>any\<close> and TypeScript's field types are erased
  when the program runs, so a field of the settings object holds a JavaScript value.
\<close>

datatype jsval = JUndefined | JNull | JBool bool | JNum int | JStr string

fun truthy :: "jsval \<Rightarrow> bool" where
  "truthy JUndefined = False"
| "truthy JNull = False"
| "truthy (JBool b) = b"
| "truthy (JNum n) = (n \<noteq> 0)"
| "truthy (JStr s) = (s \<noteq> [])"

record AppSettings =
  showCursor :: jsval
  audioEnabled :: jsval
  frameRate :: jsval
  videoBitrate :: jsval
  saveFormat :: jsval

text \<open>\<open>keyof AppSettings\<close>\<close>

datatype SettingsKey =
  KshowCursor | KaudioEnabled | KframeRate | KvideoBitrate | KsaveFormat

fun get_setting :: "SettingsKey \<Rightarrow> AppSettings \<Rightarrow> jsval" where
  "get_setting KshowCursor st = showCursor st"
| "get_setting KaudioEnabled st = audioEnabled st"
| "get_setting KframeRate st = frameRate st"
| "get_setting KvideoBitrate st = videoBitrate st"
| "get_setting KsaveFormat st = saveFormat st"

text \<open>The object literal \<open>{ ...prev, [key]: value }\<close>\<close>

fun spread_with :: "AppSettings \<Rightarrow> SettingsKey \<Rightarrow> jsval \<Rightarrow> AppSettings" where
  "spread_with prev KshowCursor v = prev\<lparr>showCursor := v\<rparr>"
| "spread_with prev KaudioEnabled v = prev\<lparr>audioEnabled := v\<rparr>"
| "spread_with prev KframeRate v = prev\<lparr>frameRate := v\<rparr>"
| "spread_with prev KvideoBitrate v = prev\<lparr>videoBitrate := v\<rparr>"
| "spread_with prev KsaveFormat v = prev\<lparr>saveFormat := v\<rparr>"

definition DEFAULT_SETTINGS :: AppSettings where
  "DEFAULT_SETTINGS =
     \<lparr>showCursor = JBool True, audioEnabled = JBool False, frameRate = JNum 30,
      videoBitrate = JNum 5000000, saveFormat = JStr ''mp4''\<rparr>"

subsection \<open>The browser's media objects\<close>

datatype TrackKind = VideoTrack | AudioTrack

datatype TrackState = Live | Ended

record MediaStreamTrack =
  kind :: TrackKind
  readyState :: TrackState

type_synonym MediaStream = "MediaStreamTrack list"

text \<open>\<open>track.stop()\<close>\<close>

definition stop_track :: "MediaStreamTrack \<Rightarrow> MediaStreamTrack" where
  "stop_track t = t\<lparr>readyState := Ended\<rparr>"

definition getVideoTracks :: "MediaStream \<Rightarrow> MediaStreamTrack list" where
  "getVideoTracks stream = filter (\<lambda>t. kind t = VideoTrack) stream"

datatype RecordingState = Inactive | Recording | Paused

text \<open>
  A recorder, with the options it was built with and the time slice it was started
  with.  \<open>onstopFormat\<close> is the \<open>settings.saveFormat\<close> that the \<open>saveRecording\<close> closure
  installed as \<open>onstop\<close> reads: the one of the render that started the recording.
\<close>

record MediaRecorder =
  state :: RecordingState
  mimeType :: string
  videoBitsPerSecond :: jsval
  timeslice :: "nat option"
  onstopFormat :: jsval

record DisplayMediaOptions =
  videoFrameRate :: "jsval option"
  videoDisplaySurface :: "string option"
  audioConstraints :: bool

text \<open>
  What the browser answers during one run of a handler: the stream that
  \<open>getDisplayMedia\<close> resolves with (\<open>None\<close> when it rejects or throws), the verdicts of
  \<open>MediaRecorder.isTypeSupported\<close>, whether the \<open>MediaRecorder\<close> constructor accepts a
  mime type and whether \<open>recorder.start\<close> succeeds (each throws otherwise), the handle
  \<open>setInterval\<close> returns, whether the hidden video ever plays (the awaited promise
  never settles otherwise), whether the off-screen canvas yields a 2D context, and the
  data URL of the captured frame.
\<close>

record Browser =
  getDisplayMedia :: "DisplayMediaOptions \<Rightarrow> MediaStream option"
  isTypeSupported :: "string \<Rightarrow> bool"
  constructsRecorder :: "string \<Rightarrow> bool"
  recorderStarts :: bool
  setInterval :: nat
  videoPlays :: bool
  hasContext2D :: bool
  toDataURL :: string

subsection \<open>The application's state\<close>

record Download =
  blobType :: string
  blobParts :: "string list"
  fileName :: string

text \<open>
  The four \<open>useState\<close> cells and the four refs of \<open>App\<close>, followed by what the
  application leaves behind in the browser: the interval timers that are running, the
  lines written to the console and the downloads triggered.
\<close>

record App =
  mode :: AppMode
  settings :: AppSettings
  recordingTime :: nat
  screenshotSrc :: "string option"
  mediaRecorderRef :: "MediaRecorder option"
  streamRef :: "MediaStream option"
  chunksRef :: "string list"
  timerRef :: "nat option"
  activeTimers :: "nat list"
  console :: "string list"
  downloads :: "Download list"

definition initial_app :: App where
  "initial_app =
     \<lparr>mode = IDLE, settings = DEFAULT_SETTINGS, recordingTime = 0, screenshotSrc = None,
      mediaRecorderRef = None, streamRef = None, chunksRef = [], timerRef = None,
      activeTimers = [], console = [], downloads = []\<rparr>"

definition updateSettings :: "SettingsKey \<Rightarrow> jsval \<Rightarrow> App \<Rightarrow> App" where
  "updateSettings k v s = s\<lparr>settings := spread_with (settings s) k v\<rparr>"

subsection \<open>Recording\<close>

definition mp4Types :: "string list" where
  "mp4Types = [''video/mp4;codecs=avc1'', ''video/mp4'', ''video/webm;codecs=h264'']"

text \<open>Lines 410 to 421 of \<open>startRecording\<close>: the mime type handed to the recorder.\<close>

definition select_mimeType :: "AppSettings \<Rightarrow> (string \<Rightarrow> bool) \<Rightarrow> string" where
  "select_mimeType st supports =
     (if saveFormat st = JStr ''mp4'' then
        (case List.find supports mp4Types of
           Some supported \<Rightarrow> supported
         | None \<Rightarrow> ''video/webm;codecs=vp9'')
      else ''video/webm;codecs=vp9'')"

text \<open>The \<open>catch\<close> block of \<open>startRecording\<close>.\<close>

definition startRecording_catch :: "App \<Rightarrow> App" where
  "startRecording_catch s =
     s\<lparr>console := console s @ [''Error starting capture:''], mode := IDLE\<rparr>"

definition startRecording :: "Browser \<Rightarrow> App \<Rightarrow> App" where
  "startRecording env s =
     (let displayMediaOptions =
            \<lparr>videoFrameRate = Some (frameRate (settings s)), videoDisplaySurface = None,
             audioConstraints = truthy (audioEnabled (settings s))\<rparr>
      in case getDisplayMedia env displayMediaOptions of
           None \<Rightarrow> startRecording_catch s
         | Some stream \<Rightarrow>
             (let s1 = s\<lparr>streamRef := Some stream\<rparr> in
              if getVideoTracks stream = [] then startRecording_catch s1
              else
                (let mimeType = select_mimeType (settings s) (isTypeSupported env) in
                 if \<not> constructsRecorder env mimeType then startRecording_catch s1
                 else
                   (let recorder =
                          \<lparr>state = Inactive, mimeType = mimeType,
                           videoBitsPerSecond = videoBitrate (settings s),
                           timeslice = None, onstopFormat = saveFormat (settings s)\<rparr>;
                        s2 = s1\<lparr>mediaRecorderRef := Some recorder, chunksRef := []\<rparr>
                    in if \<not> recorderStarts env then startRecording_catch s2
                       else
                         s2\<lparr>mediaRecorderRef :=
                               Some (recorder\<lparr>state := Recording, timeslice := Some 1000\<rparr>),
                            mode := RECORDING,
                            recordingTime := 0,
                            timerRef := Some (setInterval env),
                            activeTimers := setInterval env # activeTimers s2\<rparr>))))"

text \<open>\<open>clearInterval(id)\<close>\<close>

definition clearInterval :: "nat \<Rightarrow> App \<Rightarrow> App" where
  "clearInterval h s = s\<lparr>activeTimers := removeAll h (activeTimers s)\<rparr>"

text \<open>
  \<open>stopRecording\<close>.  \<open>recorder.stop()\<close> makes the recorder inactive; the
  \<open>dataavailable\<close> and \<open>stop\<close> events it queues reach \<open>ondataavailable\<close> and
  \<open>saveRecording\<close> below once the handler has returned.  A timer handle is a number,
  so the handle 0 is falsy.
\<close>

definition stopRecording :: "App \<Rightarrow> App" where
  "stopRecording s =
     (let s1 = (case mediaRecorderRef s of
                  None \<Rightarrow> s
                | Some r \<Rightarrow>
                    if state r \<noteq> Inactive
                    then s\<lparr>mediaRecorderRef := Some (r\<lparr>state := Inactive\<rparr>)\<rparr>
                    else s);
          s2 = (case streamRef s1 of
                  None \<Rightarrow> s1
                | Some stream \<Rightarrow> s1\<lparr>streamRef := Some (map stop_track stream)\<rparr>);
          s3 = (case timerRef s2 of
                  None \<Rightarrow> s2
                | Some h \<Rightarrow> if h \<noteq> 0 then clearInterval h s2 else s2)
      in s3\<lparr>mode := IDLE\<rparr>)"

text \<open>The tick installed with \<open>setInterval\<close>.\<close>

definition tick :: "App \<Rightarrow> App" where
  "tick s = s\<lparr>recordingTime := recordingTime s + 1\<rparr>"

definition ondataavailable :: "string \<Rightarrow> App \<Rightarrow> App" where
  "ondataavailable blob s =
     (if length blob > 0 then s\<lparr>chunksRef := chunksRef s @ [blob]\<rparr> else s)"

text \<open>Decimal digits of a number, for the file names.\<close>

fun decimal :: "nat \<Rightarrow> string" where
  "decimal n =
     (if n < 10 then [char_of (48 + n)]
      else decimal (n div 10) @ [char_of (48 + n mod 10)])"

declare decimal.simps [simp del]

text \<open>\<open>saveRecording\<close>, with the value of \<open>new Date().getTime()\<close>.\<close>

definition saveRecording :: "nat \<Rightarrow> App \<Rightarrow> App" where
  "saveRecording now s =
     (let blobType = (case mediaRecorderRef s of
                        None \<Rightarrow> ''video/webm''
                      | Some r \<Rightarrow> if mimeType r \<noteq> [] then mimeType r else ''video/webm'');
          format = (case mediaRecorderRef s of
                      None \<Rightarrow> saveFormat (settings s)
                    | Some r \<Rightarrow> onstopFormat r);
          ext = (if format = JStr ''mp4'' then ''mp4'' else ''webm'')
      in s\<lparr>downloads := downloads s @
             [\<lparr>blobType = blobType, blobParts = chunksRef s,
               fileName = ''recording-'' @ decimal now @ ''.'' @ ext\<rparr>]\<rparr>)"

subsection \<open>Screenshots\<close>

text \<open>
  An \<open>async\<close> function either runs to its end or stays suspended at an \<open>await\<close>
  whose promise never settles; both carry the application state they leave.
\<close>

datatype 'a outcome = Returned 'a | Suspended 'a

text \<open>
  \<open>takeScreenshot\<close>.  The result pairs the application state with the stream the call
  obtained, as the call leaves it.
\<close>

definition takeScreenshot :: "Browser \<Rightarrow> App \<Rightarrow> (App \<times> MediaStream option) outcome" where
  "takeScreenshot env s =
     (case getDisplayMedia env
             \<lparr>videoFrameRate = None, videoDisplaySurface = Some ''monitor'',
              audioConstraints = False\<rparr> of
        None \<Rightarrow> Returned (s\<lparr>console := console s @ [''Screenshot failed:'']\<rparr>, None)
      | Some stream \<Rightarrow>
          if \<not> videoPlays env then Suspended (s, Some stream)
          else
            (let s1 = (if hasContext2D env
                       then s\<lparr>screenshotSrc := Some (toDataURL env), mode := SCREENSHOT_PREVIEW\<rparr>
                       else s)
             in Returned (s1, Some (map stop_track stream))))"

definition saveScreenshot :: "nat \<Rightarrow> string \<Rightarrow> App \<Rightarrow> App" where
  "saveScreenshot now blob s =
     s\<lparr>downloads := downloads s @
          [\<lparr>blobType = ''image/png'', blobParts = [blob],
            fileName = ''screenshot-'' @ decimal now @ ''.png''\<rparr>],
       mode := IDLE, screenshotSrc := None\<rparr>"

section \<open>Invariant and worked scenarios\<close>

text \<open>
  While no stroke is in progress the last snapshot of the history is what the canvas
  shows.
\<close>

definition idle_ok :: "Editor \<Rightarrow> bool" where
  "idle_ok e \<longleftrightarrow> history e \<noteq> [] \<and> canvas_pixels e = Some (last (history e))"

text \<open>
  An editor that has loaded an 800 by 600 capture into a 1000 by 800 container and has
  the rectangle tool selected, and the gesture that drags from (10,10) to (50,40).
\<close>

definition example_canvas :: Canvas where
  "example_canvas =
     \<lparr>canvasWidth = 300, canvasHeight = 150, rectLeft = 0, rectTop = 0,
      ctx2d = Some fresh_context\<rparr>"

definition example_image :: HTMLImage where
  "example_image = \<lparr>imgSrc = ''data:image/png;base64,AAAA'', imgWidth = 800, imgHeight = 600\<rparr>"

definition rectangle_editor :: Editor where
  "rectangle_editor =
     (onload example_image
        (mounted example_canvas \<lparr>clientWidth = 1000, clientHeight = 800\<rparr>))
       \<lparr>selectedTool := RECTANGLE\<rparr>"


definition example_drag :: "PointerEvent \<times> PointerEvent list" where
  "example_drag = (Mouse 10 10, [Mouse 30 20, Mouse 50 40])"

text \<open>
  A browser that shares the screen as one live video track and whose recorder encodes
  none of the mime types the application asks for.
\<close>

definition live_screen :: MediaStream where
  "live_screen = [\<lparr>kind = VideoTrack, readyState = Live\<rparr>]"

definition no_encoder_browser :: Browser where
  "no_encoder_browser =
     \<lparr>getDisplayMedia = (\<lambda>_. Some live_screen),
      isTypeSupported = (\<lambda>_. False),
      constructsRecorder = (\<lambda>_. False),
      recorderStarts = True, setInterval = 1, videoPlays = True, hasContext2D = True,
      toDataURL = ''data:image/png;base64,AAAA''\<rparr>"

text \<open>
  A browser whose recorder encodes plain \<open>video/mp4\<close> and VP9 in WebM, and nothing
  else.
\<close>

definition mp4_and_vp9 :: "string \<Rightarrow> bool" where
  "mp4_and_vp9 t \<longleftrightarrow> t = ''video/mp4'' \<or> t = ''video/webm;codecs=vp9''"

definition mp4_browser :: Browser where
  "mp4_browser =
     \<lparr>getDisplayMedia = (\<lambda>_. Some live_screen),
      isTypeSupported = mp4_and_vp9,
      constructsRecorder = mp4_and_vp9,
      recorderStarts = True, setInterval = 1, videoPlays = True, hasContext2D = True,
      toDataURL = ''data:image/png;base64,AAAA''\<rparr>"

text \<open>A browser in which the user dismisses the picker, so that the request rejects.\<close>

definition cancelling_browser :: Browser where
  "cancelling_browser =
     \<lparr>getDisplayMedia = (\<lambda>_. None),
      isTypeSupported = mp4_and_vp9,
      constructsRecorder = mp4_and_vp9,
      recorderStarts = True, setInterval = 1, videoPlays = True, hasContext2D = True,
      toDataURL = ''data:image/png;base64,AAAA''\<rparr>"

definition webm_app :: App where
  "webm_app = updateSettings KsaveFormat (JStr ''webm'') initial_app"

section \<open>Properties of the hotkey handler\<close>

lemma distinct_filter_mem_swap:
  assumes "distinct xs" "distinct ms"
  shows "length (filter (\<lambda>k. k \<in> set ms) xs) = length (filter (\<lambda>m. m \<in> set xs) ms)"
proof -
  have "length (filter (\<lambda>k. k \<in> set ms) xs) = card ({k. k \<in> set ms} \<inter> set xs)"
    using assms(1) by (rule distinct_length_filter)
  also have "\<dots> = card ({m. m \<in> set xs} \<inter> set ms)"
    by (simp add: Int_commute)
  also have "\<dots> = length (filter (\<lambda>m. m \<in> set xs) ms)"
    using assms(2) by (rule distinct_length_filter [symmetric])
  finally show ?thesis .
qed

lemma find_filter_single: "filter P xs = [x] \<Longrightarrow> List.find P xs = Some x"
  by (induction xs) (auto split: if_splits)

text \<open>
  C3.  Whatever function the engine's \<open>toLowerCase\<close> is: for a chord (distinct parts,
  exactly one of them, a non-empty one, not among ctrl, shift and alt) the handler
  prevents the default action and invokes the callback exactly on the key-down events
  on which every modifier the chord names is reported pressed and the event's key
  equals the primary key up to case; on every other event it does nothing.  The
  instance that follows is the binding \<open>ctrl+shift+r\<close>, which stays silent when only
  ctrl is held with the key \<open>r\<close>.
\<close>

theorem hotkey_fires_iff_chord_matches:
  assumes "is_chord lower keyCombo"
  shows "handleKeyDown lower keyCombo event =
           (if chord_matches lower keyCombo event then [PreventDefault, Callback] else [])"
proof -
  define keys where "keys = split_on (CHR ''+'') (lower keyCombo)"
  have parts: "chord_parts lower keyCombo = keys"
    by (simp add: keys_def chord_parts_def)
  have dist: "distinct keys"
    using assms by (simp add: is_chord_def parts)
  obtain p where nonmod: "filter (\<lambda>k. k \<notin> set modifier_names) keys = [p]" and pne: "p \<noteq> []"
    using assms unfolding is_chord_def primary_keys_def parts
    by (cases "filter (\<lambda>k. k \<notin> set modifier_names) keys") auto
  have main: "mainKey_of keys = Some p"
    unfolding mainKey_of_def using nonmod by (rule find_filter_single)
  have "length keys = length (filter (\<lambda>k. k \<in> set modifier_names) keys)
                      + length (filter (\<lambda>k. k \<notin> set modifier_names) keys)"
    using sum_length_filter_compl [of "\<lambda>k. k \<in> set modifier_names" keys] by simp
  also have "length (filter (\<lambda>k. k \<in> set modifier_names) keys)
               = length (filter (\<lambda>m. m \<in> set keys) modifier_names)"
    using dist by (rule distinct_filter_mem_swap) (simp add: modifier_names_def)
  finally have len: "length keys = length (filter (\<lambda>m. m \<in> set keys) modifier_names) + 1"
    by (simp add: nonmod)
  have plen: "length (pressed_of lower keys event) = length keys"
    by (simp add: pressed_of_def main pne len modifier_names_def)
  have pall: "list_all (\<lambda>p. p) (pressed_of lower keys event) \<longleftrightarrow>
                (''ctrl'' \<in> set keys \<longrightarrow> ctrlKey event) \<and>
                (''shift'' \<in> set keys \<longrightarrow> shiftKey event) \<and>
                (''alt'' \<in> set keys \<longrightarrow> altKey event) \<and>
                lower (key event) = p"
    by (simp add: pressed_of_def main pne)
  have cm: "chord_matches lower keyCombo event \<longleftrightarrow>
                (''ctrl'' \<in> set keys \<longrightarrow> ctrlKey event) \<and>
                (''shift'' \<in> set keys \<longrightarrow> shiftKey event) \<and>
                (''alt'' \<in> set keys \<longrightarrow> altKey event) \<and>
                lower (key event) = p"
    using nonmod by (simp add: chord_matches_def primary_keys_def parts names_modifier_def
        modifier_names_def modifier_pressed_def)
  show ?thesis
    using plen pall cm by (simp add: handleKeyDown_def keys_def [symmetric] Let_def)
qed

theorem hotkey_fires_iff_chord_matches_witness:
  "is_chord ascii_lower ''ctrl+shift+r'' \<and>
   handleKeyDown ascii_lower ''ctrl+shift+r''
     \<lparr>ctrlKey = True, shiftKey = False, altKey = False, metaKey = False, key = ''r''\<rparr> = [] \<and>
   handleKeyDown ascii_lower ''ctrl+shift+r''
     \<lparr>ctrlKey = True, shiftKey = True, altKey = False, metaKey = False, key = ''R''\<rparr>
     = [PreventDefault, Callback]"
proof -
  have c: "is_chord ascii_lower ''ctrl+shift+r''"
    by code_simp
  have n: "\<not> chord_matches ascii_lower ''ctrl+shift+r''
     \<lparr>ctrlKey = True, shiftKey = False, altKey = False, metaKey = False, key = ''r''\<rparr>"
    by code_simp
  have y: "chord_matches ascii_lower ''ctrl+shift+r''
     \<lparr>ctrlKey = True, shiftKey = True, altKey = False, metaKey = False, key = ''R''\<rparr>"
    by code_simp
  show ?thesis
    using hotkey_fires_iff_chord_matches [OF c] c n y by simp
qed

text \<open>
  The handler follows the engine's case folding outside ASCII as well: when
  lower-casing turns the chord \<open>ctrl+\<close>\<^verbatim>\<open>0xC9\<close> into \<open>ctrl+\<close>\<^verbatim>\<open>0xE9\<close>, the
  chord fires on the key \<^verbatim>\<open>0xE9\<close> with ctrl held.
\<close>

lemma folded_primary_key_fires:
  assumes "lower (''ctrl+'' @ [CHR 0xC9]) = ''ctrl+'' @ [CHR 0xE9]"
    and "lower [CHR 0xE9] = [CHR 0xE9]"
  shows "handleKeyDown lower (''ctrl+'' @ [CHR 0xC9])
           \<lparr>ctrlKey = True, shiftKey = False, altKey = False, metaKey = False,
            key = [CHR 0xE9]\<rparr>
           = [PreventDefault, Callback]"
  using assms
  by (simp add: handleKeyDown_def pressed_of_def mainKey_of_def modifier_names_def)

text \<open>
  C8.  There is a key-down event on which a bound chord fires although a modifier the
  chord does not name is held as well: \<open>ctrl+shift+r\<close> fires on ctrl+shift+alt+r,
  since a modifier missing from the chord string is never looked at.  The two
  hypotheses say that lower-casing leaves the lower-case strings \<open>ctrl+shift+r\<close> and
  \<open>r\<close> as they are.
\<close>

theorem unnamed_modifier_ignored:
  assumes "lower ''ctrl+shift+r'' = ''ctrl+shift+r''" and "lower ''r'' = ''r''"
  shows "\<not> names_modifier lower ''ctrl+shift+r'' ''alt'' \<and>
         altKey \<lparr>ctrlKey = True, shiftKey = True, altKey = True, metaKey = False, key = ''r''\<rparr> \<and>
         handleKeyDown lower ''ctrl+shift+r''
           \<lparr>ctrlKey = True, shiftKey = True, altKey = True, metaKey = False, key = ''r''\<rparr>
           = [PreventDefault, Callback]"
  using assms
  by (simp add: names_modifier_def chord_parts_def handleKeyDown_def pressed_of_def
      mainKey_of_def modifier_names_def)

theorem unnamed_modifier_ignored_witness:
  "ascii_lower ''ctrl+shift+r'' = ''ctrl+shift+r'' \<and> ascii_lower ''r'' = ''r'' \<and>
   \<not> names_modifier ascii_lower ''ctrl+shift+r'' ''alt'' \<and>
   handleKeyDown ascii_lower ''ctrl+shift+r''
     \<lparr>ctrlKey = True, shiftKey = True, altKey = True, metaKey = False, key = ''r''\<rparr>
     = [PreventDefault, Callback]"
proof -
  have a: "ascii_lower ''ctrl+shift+r'' = ''ctrl+shift+r''" by code_simp
  have b: "ascii_lower ''r'' = ''r''" by code_simp
  show ?thesis
    using unnamed_modifier_ignored [OF a b] a b by simp
qed

section \<open>Properties of the annotation editor\<close>

lemma on_context_fields [simp]:
  "history (on_context f e) = history e"
  "isDrawing (on_context f e) = isDrawing e"
  "startPoint (on_context f e) = startPoint e"
  "selectedTool (on_context f e) = selectedTool e"
  "color (on_context f e) = color e"
  "lineWidth (on_context f e) = lineWidth e"
  by (simp_all add: on_context_def split: option.splits)

lemma current_context_on_context [simp]:
  "current_context (on_context f e) = map_option f (current_context e)"
  by (simp add: on_context_def current_context_def split: option.splits)

lemma canvas_pixels_on_context:
  "canvas_pixels (on_context f e) = map_option (\<lambda>c. pixels (f c)) (current_context e)"
  by (simp add: canvas_pixels_def option.map_comp o_def)

lemma current_context_upd [simp]:
  "current_context (e\<lparr>isDrawing := b\<rparr>) = current_context e"
  "current_context (e\<lparr>startPoint := p\<rparr>) = current_context e"
  "current_context (e\<lparr>history := h\<rparr>) = current_context e"
  "current_context (e\<lparr>selectedTool := t\<rparr>) = current_context e"
  "current_context (e\<lparr>color := k\<rparr>) = current_context e"
  "current_context (e\<lparr>lineWidth := w\<rparr>) = current_context e"
  "current_context (e\<lparr>originalImage := im\<rparr>) = current_context e"
  by (simp_all add: current_context_def)

lemma saveState_eq:
  "saveState e =
     (case current_context e of
        None \<Rightarrow> e
      | Some c \<Rightarrow> e\<lparr>history := slice_last 10 (history e) @ [pixels c]\<rparr>)"
  by (simp add: saveState_def current_context_def getImageData_def split: option.splits)

lemma current_context_saveState [simp]: "current_context (saveState e) = current_context e"
  by (simp add: saveState_eq split: option.splits)

lemma draw_eq:
  "draw ev e =
     (if \<not> isDrawing e then e
      else case startPoint e of
        None \<Rightarrow> e
      | Some sp \<Rightarrow>
          (case current_context e of
             None \<Rightarrow> e
           | Some _ \<Rightarrow>
               (case getCoordinates ev e of
                  None \<Rightarrow> e
                | Some currentPoint \<Rightarrow>
                    if selectedTool e = PEN then
                      on_context
                        (\<lambda>c. stroke (lineTo (xcoord currentPoint) (ycoord currentPoint) c)) e
                    else if selectedTool e = RECTANGLE \<or> selectedTool e = ARROW then
                      on_context
                        (\<lambda>c.
                           let c1 = (if history e = [] then c
                                     else putImageData (last (history e)) c);
                               c2 = (beginPath c1)
                                      \<lparr>strokeStyle := color e, ctxLineWidth := lineWidth e\<rparr>
                           in if selectedTool e = RECTANGLE
                              then draw_rectangle sp currentPoint c2
                              else draw_arrow (lineWidth e) sp currentPoint c2) e
                    else e)))"
  by (simp add: draw_def current_context_def split: option.splits)

lemma draw_fields [simp]:
  "history (draw ev e) = history e"
  "isDrawing (draw ev e) = isDrawing e"
  "startPoint (draw ev e) = startPoint e"
  "selectedTool (draw ev e) = selectedTool e"
  "color (draw ev e) = color e"
  "lineWidth (draw ev e) = lineWidth e"
  by (simp_all add: draw_eq split: option.splits)

lemma draw_context_defined [simp]:
  "current_context (draw ev e) = None \<longleftrightarrow> current_context e = None"
  by (simp add: draw_eq split: option.splits)

lemma moves_fields [simp]:
  "history (moves evs e) = history e"
  "isDrawing (moves evs e) = isDrawing e"
  "startPoint (moves evs e) = startPoint e"
  "selectedTool (moves evs e) = selectedTool e"
  "color (moves evs e) = color e"
  "lineWidth (moves evs e) = lineWidth e"
  unfolding moves_def by (induction evs arbitrary: e) simp_all

lemma moves_context_defined [simp]:
  "current_context (moves evs e) = None \<longleftrightarrow> current_context e = None"
  unfolding moves_def by (induction evs arbitrary: e) simp_all

lemma startDrawing_fields [simp]:
  "history (startDrawing ev e) = history e"
  "isDrawing (startDrawing ev e) = True"
  "selectedTool (startDrawing ev e) = selectedTool e"
  "color (startDrawing ev e) = color e"
  "lineWidth (startDrawing ev e) = lineWidth e"
  by (simp_all add: startDrawing_def Let_def split: option.splits)

lemma startDrawing_context_defined [simp]:
  "current_context (startDrawing ev e) = None \<longleftrightarrow> current_context e = None"
  by (simp add: startDrawing_def Let_def split: option.splits)

lemma startDrawing_pixels [simp]: "canvas_pixels (startDrawing ev e) = canvas_pixels e"
  by (simp add: startDrawing_def Let_def canvas_pixels_def option.map_comp o_def
      beginPath_def moveTo_def split: option.splits)

lemma endDrawing_history:
  "history (endDrawing e) =
     (if isDrawing e then
        (case canvas_pixels e of None \<Rightarrow> history e
         | Some img \<Rightarrow> slice_last 10 (history e) @ [img])
      else history e)"
  by (simp add: endDrawing_def saveState_eq canvas_pixels_def split: option.splits)

lemma endDrawing_context [simp]: "current_context (endDrawing e) = current_context e"
  by (simp add: endDrawing_def)

lemma undo_fields [simp]:
  "isDrawing (undo e) = isDrawing e"
  "startPoint (undo e) = startPoint e"
  "selectedTool (undo e) = selectedTool e"
  by (simp_all add: undo_def Let_def)

lemma undo_history:
  "history (undo e) = (if 1 < length (history e) then butlast (history e) else history e)"
  by (simp add: undo_def Let_def)

lemma undo_context_defined [simp]:
  "current_context (undo e) = None \<longleftrightarrow> current_context e = None"
  by (simp add: undo_def Let_def)

lemma length_slice_last: "length (slice_last n xs) = min n (length xs)"
  by (simp add: slice_last_def)

lemma undo_noop: "length (history e) \<le> 1 \<Longrightarrow> undo e = e"
  by (simp add: undo_def)



lemma saveState_length: "length (history e) \<le> 11 \<Longrightarrow> length (history (saveState e)) \<le> 11"
  by (simp add: saveState_eq length_slice_last split: option.splits)

lemma onload_length: "length (history e) \<le> 11 \<Longrightarrow> length (history (onload img e)) \<le> 11"
  by (auto simp add: onload_def Let_def intro!: saveState_length split: option.splits prod.splits)

lemma endDrawing_length:
  "length (history e) \<le> 11 \<Longrightarrow> length (history (endDrawing e)) \<le> 11"
  by (simp add: endDrawing_history length_slice_last split: option.splits)

lemma undo_length: "length (history e) \<le> 11 \<Longrightarrow> length (history (undo e)) \<le> 11"
  by (simp add: undo_history) arith

lemma editor_step_length:
  "length (history e) \<le> 11 \<Longrightarrow> length (history (editor_step e ev)) \<le> 11"
  by (cases ev) (simp_all add: onload_length endDrawing_length undo_length)

lemma editor_run_length:
  "length (history e) \<le> 11 \<Longrightarrow> length (history (editor_run evs e)) \<le> 11"
  unfolding editor_run_def
  by (induction evs arbitrary: e) (simp_all add: editor_step_length)

lemma gesture_history:
  "history (gesture down evs e) =
     (case canvas_pixels (gesture down evs e) of
        None \<Rightarrow> history e
      | Some snap \<Rightarrow> slice_last 10 (history e) @ [snap])"
proof -
  let ?s = "moves evs (startDrawing down e)"
  have "history (endDrawing ?s) =
          (case canvas_pixels ?s of None \<Rightarrow> history ?s
           | Some img \<Rightarrow> slice_last 10 (history ?s) @ [img])"
    by (simp add: endDrawing_history)
  moreover have "history ?s = history e" by simp
  moreover have "canvas_pixels (endDrawing ?s) = canvas_pixels ?s"
    by (simp add: canvas_pixels_def)
  ultimately show ?thesis by (simp add: gesture_def cong: option.case_cong)
qed

lemma gesture_context_defined [simp]:
  "current_context (gesture down evs e) = None \<longleftrightarrow> current_context e = None"
  by (simp add: gesture_def)

lemma gesture_length:
  "length (history (gesture down evs e)) =
     (if current_context e = None then length (history e)
      else min 10 (length (history e)) + 1)"
proof (cases "current_context e")
  case None
  then have "canvas_pixels (gesture down evs e) = None"
    by (simp add: canvas_pixels_def)
  then show ?thesis using None by (simp add: gesture_history)
next
  case (Some c)
  then obtain snap where "canvas_pixels (gesture down evs e) = Some snap"
    by (cases "current_context (gesture down evs e)") (auto simp add: canvas_pixels_def)
  then show ?thesis using Some by (simp add: gesture_history length_slice_last)
qed

lemma strokes_Nil [simp]: "strokes [] e = e"
  by (simp add: strokes_def)

lemma strokes_single [simp]: "strokes [g] e = gesture (fst g) (snd g) e"
  by (simp add: strokes_def)

lemma strokes_snoc: "strokes (gs @ [g]) e = gesture (fst g) (snd g) (strokes gs e)"
  by (simp add: strokes_def)

lemma strokes_context_defined [simp]:
  "current_context (strokes gs e) = None \<longleftrightarrow> current_context e = None"
  by (induction gs rule: rev_induct) (simp_all add: strokes_snoc)

lemma strokes_length_le:
  "length (history e) \<le> 11 \<Longrightarrow> length (history (strokes gs e)) \<le> 11"
  by (induction gs rule: rev_induct) (simp_all add: strokes_snoc gesture_length)

lemma strokes_length:
  assumes "current_context e \<noteq> None" "length (history e) \<le> 11" "gs \<noteq> []"
  shows "length (history (strokes gs e)) = min 11 (length (history e) + length gs)"
  using assms(3)
proof (induction gs rule: rev_induct)
  case Nil
  then show ?case by simp
next
  case (snoc g gs)
  show ?case
  proof (cases "gs = []")
    case True
    then show ?thesis using assms(1,2) by (auto simp add: gesture_length)
  next
    case False
    then show ?thesis using snoc.IH assms(1) by (auto simp add: strokes_snoc gesture_length)
  qed
qed

lemma undo_iter_length_le:
  "length (history ((undo ^^ k) e)) \<le> max 1 (length (history e) - k)"
  by (induction k) (auto simp add: undo_history)

lemma undo_iter_length:
  "k < length (history e) \<Longrightarrow> length (history ((undo ^^ k) e)) = length (history e) - k"
  by (induction k) (auto simp add: undo_history)

lemma undo_iter_noop:
  assumes "length (history e) \<le> 11" "10 \<le> n"
  shows "undo ((undo ^^ n) e) = (undo ^^ n) e"
proof -
  have "length (history ((undo ^^ n) e)) \<le> max 1 (length (history e) - n)"
    by (rule undo_iter_length_le)
  also have "\<dots> \<le> 1" using assms by simp
  finally show ?thesis by (rule undo_noop)
qed

text \<open>
  C2.  Starting from a history of at most 11 snapshots (it is empty when the editor
  mounts), no sequence of editor events and no sequence of committed strokes makes it
  longer than 11; a commit on a full history drops the oldest snapshot and appends the
  new one.  After 15 committed strokes every undo from the eleventh on is a no-op, and
  when a drawing surface exists exactly the first ten remove a snapshot.
\<close>

theorem undo_history_bounded:
  assumes "length (history e) \<le> 11"
  shows "length (history (editor_run evs e)) \<le> 11 \<and>
         length (history (strokes gs e)) \<le> 11 \<and>
         (length (history e) = 11 \<and> canvas_pixels e \<noteq> None \<longrightarrow>
            butlast (history (gesture down ms e)) = tl (history e)) \<and>
         (length gs = 15 \<longrightarrow>
            (\<forall>n\<ge>10. undo ((undo ^^ n) (strokes gs e)) = (undo ^^ n) (strokes gs e))) \<and>
         (length gs = 15 \<and> canvas_pixels e \<noteq> None \<longrightarrow>
            (\<forall>k<10. history ((undo ^^ Suc k) (strokes gs e))
                       = butlast (history ((undo ^^ k) (strokes gs e))) \<and>
                     length (history ((undo ^^ k) (strokes gs e))) = 11 - k))"
proof -
  have le: "length (history (strokes gs e)) \<le> 11"
    using assms by (rule strokes_length_le)
  have discard: "butlast (history (gesture down ms e)) = tl (history e)"
    if a: "length (history e) = 11 \<and> canvas_pixels e \<noteq> None"
  proof -
    have "current_context (gesture down ms e) \<noteq> None"
      using a by (simp add: canvas_pixels_def)
    then obtain snap where "canvas_pixels (gesture down ms e) = Some snap"
      by (cases "current_context (gesture down ms e)") (auto simp add: canvas_pixels_def)
    then have "history (gesture down ms e) = slice_last 10 (history e) @ [snap]"
      by (simp add: gesture_history)
    then show ?thesis
      using a by (simp add: slice_last_def drop_Suc)
  qed
  have exact: "history ((undo ^^ Suc k) (strokes gs e))
                 = butlast (history ((undo ^^ k) (strokes gs e))) \<and>
               length (history ((undo ^^ k) (strokes gs e))) = 11 - k"
    if a: "length gs = 15 \<and> canvas_pixels e \<noteq> None" and k: "k < 10" for k
  proof -
    have "gs \<noteq> []" using a by auto
    moreover have "current_context e \<noteq> None" using a by (simp add: canvas_pixels_def)
    ultimately have "length (history (strokes gs e)) = min 11 (length (history e) + length gs)"
      using assms by (simp add: strokes_length)
    then have full: "length (history (strokes gs e)) = 11" using a by simp
    then have len: "length (history ((undo ^^ k) (strokes gs e))) = 11 - k"
      using k by (simp add: undo_iter_length)
    then have "history ((undo ^^ Suc k) (strokes gs e))
                 = butlast (history ((undo ^^ k) (strokes gs e)))"
      using k by (simp add: undo_history less_diff_conv)
    then show ?thesis using len by simp
  qed
  have "length (history (editor_run evs e)) \<le> 11"
    using assms by (rule editor_run_length)
  moreover have "\<forall>n\<ge>10. undo ((undo ^^ n) (strokes gs e)) = (undo ^^ n) (strokes gs e)"
    using le by (simp add: undo_iter_noop)
  ultimately show ?thesis
    using le discard exact by blast
qed


lemma getCoordinates_on_context [simp]:
  "getCoordinates ev (on_context f e) = getCoordinates ev e"
  by (simp add: getCoordinates_def on_context_def
      split: option.splits PointerEvent.splits list.splits)







lemma moves_snoc: "moves (evs @ [ev]) e = draw ev (moves evs e)"
  by (simp add: moves_def)




lemma getCoordinates_canvas:
  "map_option (\<lambda>cv. (rectLeft cv, rectTop cv)) (canvasRef e')
     = map_option (\<lambda>cv. (rectLeft cv, rectTop cv)) (canvasRef e)
   \<Longrightarrow> getCoordinates ev e' = getCoordinates ev e"
  by (cases "canvasRef e'"; cases "canvasRef e")
     (auto simp add: getCoordinates_def split: PointerEvent.splits list.splits)

lemma rect_on_context [simp]:
  "map_option (\<lambda>cv. (rectLeft cv, rectTop cv)) (canvasRef (on_context f e))
     = map_option (\<lambda>cv. (rectLeft cv, rectTop cv)) (canvasRef e)"
  by (simp add: on_context_def split: option.splits)

lemma rect_draw [simp]:
  "map_option (\<lambda>cv. (rectLeft cv, rectTop cv)) (canvasRef (draw ev e))
     = map_option (\<lambda>cv. (rectLeft cv, rectTop cv)) (canvasRef e)"
  by (simp add: draw_eq split: option.splits)

lemma rect_moves [simp]:
  "map_option (\<lambda>cv. (rectLeft cv, rectTop cv)) (canvasRef (moves evs e))
     = map_option (\<lambda>cv. (rectLeft cv, rectTop cv)) (canvasRef e)"
  by (induction evs rule: rev_induct) (simp_all add: moves_snoc, simp add: moves_def)

lemma rect_startDrawing [simp]:
  "map_option (\<lambda>cv. (rectLeft cv, rectTop cv)) (canvasRef (startDrawing ev e))
     = map_option (\<lambda>cv. (rectLeft cv, rectTop cv)) (canvasRef e)"
  by (simp add: startDrawing_def Let_def split: option.splits)

lemma getCoordinates_gesture_state [simp]:
  "getCoordinates ev (moves evs (startDrawing down e)) = getCoordinates ev e"
  by (rule getCoordinates_canvas) simp

lemma round_caps_on_context:
  "(\<And>c. lineCap (f c) = lineCap c \<and> lineJoin (f c) = lineJoin c)
   \<Longrightarrow> round_caps (on_context f e) = round_caps e"
  by (simp add: round_caps_def split: option.splits)

lemma caps_draw_rectangle [simp]:
  "lineCap (draw_rectangle sp cp c) = lineCap c" "lineJoin (draw_rectangle sp cp c) = lineJoin c"
  by (simp_all add: draw_rectangle_def stroke_def rect_def)

lemma caps_draw_arrow [simp]:
  "lineCap (draw_arrow w sp cp c) = lineCap c" "lineJoin (draw_arrow w sp cp c) = lineJoin c"
  by (simp_all add: draw_arrow_def Let_def stroke_def lineTo_def moveTo_def beginPath_def)

lemma round_caps_draw [simp]: "round_caps (draw ev e) = round_caps e"
  by (auto simp add: draw_eq Let_def stroke_def lineTo_def putImageData_def beginPath_def
      intro!: round_caps_on_context split: option.splits)

lemma round_caps_moves [simp]: "round_caps (moves evs e) = round_caps e"
  by (induction evs rule: rev_induct) (simp_all add: moves_snoc, simp add: moves_def)








subsection \<open>The invariant, and the worked scenario\<close>

lemma idle_ok_gesture: "canvas_pixels e \<noteq> None \<Longrightarrow> idle_ok (gesture down evs e)"
proof -
  assume "canvas_pixels e \<noteq> None"
  then have "current_context (gesture down evs e) \<noteq> None"
    by (simp add: canvas_pixels_def)
  then obtain snap where "canvas_pixels (gesture down evs e) = Some snap"
    by (cases "current_context (gesture down evs e)") (auto simp add: canvas_pixels_def)
  then show ?thesis
    by (simp add: idle_ok_def gesture_history)
qed

lemma idle_ok_undo: "idle_ok e \<Longrightarrow> idle_ok (undo e)"
proof (cases "1 < length (history e)")
  case True
  assume ok: "idle_ok e"
  have ne: "butlast (history e) \<noteq> []"
    using True by (cases "history e" rule: rev_cases) auto
  obtain c where "current_context e = Some c"
    using ok by (auto simp add: idle_ok_def canvas_pixels_def)
  then show ?thesis
    using True ne
    by (simp add: idle_ok_def undo_def Let_def canvas_pixels_on_context putImageData_def)
next
  case False
  assume "idle_ok e"
  then show ?thesis using False by (simp add: undo_def)
qed

lemma idle_ok_onload:
  assumes "canvas_pixels e \<noteq> None" "containerRef e \<noteq> None"
  shows "idle_ok (onload img e)"
proof -
  obtain cv c box where cv: "canvasRef e = Some cv" "ctx2d cv = Some c" "containerRef e = Some box"
    using assms by (auto simp add: canvas_pixels_def current_context_def split: option.splits)
  then show ?thesis
    by (simp add: idle_ok_def onload_def Let_def saveState_def canvas_pixels_def
        current_context_def getImageData_def)
qed

lemma rectangle_editor_history:
  "history rectangle_editor = [[DrawImage ''data:image/png;base64,AAAA'' 800 600]]"
  by (simp add: rectangle_editor_def onload_def mounted_def example_canvas_def example_image_def
      Let_def saveState_def slice_last_def getImageData_def drawImage_def fresh_context_def)

lemma rectangle_editor_pixels:
  "canvas_pixels rectangle_editor = Some [DrawImage ''data:image/png;base64,AAAA'' 800 600]"
  by (simp add: rectangle_editor_def onload_def mounted_def example_canvas_def example_image_def
      Let_def saveState_def canvas_pixels_def current_context_def drawImage_def fresh_context_def)







theorem undo_history_bounded_witness:
  "length (history rectangle_editor) \<le> 11 \<and>
   length (history (editor_run
       [PointerDown (Mouse 10 10), PointerMove (Mouse 50 40), PointerUp, UndoClicked]
       rectangle_editor)) \<le> 11 \<and>
   length (history (strokes (replicate 15 example_drag) rectangle_editor)) = 11 \<and>
   length (history ((undo ^^ 10) (strokes (replicate 15 example_drag) rectangle_editor))) = 1 \<and>
   undo ((undo ^^ 10) (strokes (replicate 15 example_drag) rectangle_editor))
     = (undo ^^ 10) (strokes (replicate 15 example_drag) rectangle_editor)"
proof -
  let ?gs = "replicate 15 example_drag"
  let ?s = "strokes ?gs rectangle_editor"
  have le: "length (history rectangle_editor) \<le> 11"
    by (simp add: rectangle_editor_history)
  have n: "length ?gs = 15" by simp
  have px: "canvas_pixels rectangle_editor \<noteq> None"
    by (simp add: rectangle_editor_pixels)
  note t = undo_history_bounded [OF le, of _ ?gs]
  have a: "length (history (editor_run
       [PointerDown (Mouse 10 10), PointerMove (Mouse 50 40), PointerUp, UndoClicked]
       rectangle_editor)) \<le> 11"
    using t by blast
  have b: "undo ((undo ^^ 10) ?s) = (undo ^^ 10) ?s"
    using t n by blast
  have c: "\<forall>k<10. history ((undo ^^ Suc k) ?s) = butlast (history ((undo ^^ k) ?s)) \<and>
                   length (history ((undo ^^ k) ?s)) = 11 - k"
    using t n px by blast
  have c0: "length (history ((undo ^^ 0) ?s)) = 11 - 0"
    using c [rule_format, of 0] by simp
  have c9: "history ((undo ^^ Suc 9) ?s) = butlast (history ((undo ^^ 9) ?s))"
    "length (history ((undo ^^ 9) ?s)) = 11 - 9"
    using c [rule_format, of 9] by simp_all
  have "length (history ((undo ^^ 10) ?s)) = 1"
  proof -
    have "(10::nat) = Suc 9" by simp
    then have "(undo ^^ 10) ?s = (undo ^^ Suc 9) ?s" by (rule arg_cong [where f = "\<lambda>n. (undo ^^ n) ?s"])
    then show ?thesis using c9 by simp
  qed
  then show ?thesis using le a b c0 by simp
qed


section \<open>Properties of the application shell\<close>

lemma spread_with_get: "get_setting k (spread_with prev k v) = v"
  by (cases k) simp_all

lemma spread_with_other: "k' \<noteq> k \<Longrightarrow> get_setting k' (spread_with prev k v) = get_setting k' prev"
  by (cases k; cases k') simp_all

text \<open>
  C7.  \<open>updateSettings\<close> stores the new value in the named field, leaves every other
  field of the settings as it was, and touches nothing else in the application state.
\<close>

theorem updateSettings_merges:
  "get_setting k (settings (updateSettings k v s)) = v \<and>
   (\<forall>k'. k' \<noteq> k \<longrightarrow>
      get_setting k' (settings (updateSettings k v s)) = get_setting k' (settings s)) \<and>
   (updateSettings k v s)\<lparr>settings := settings s\<rparr> = s"
  by (simp add: updateSettings_def spread_with_get spread_with_other)

theorem updateSettings_merges_witness:
  "KsaveFormat \<noteq> KframeRate \<and>
   frameRate (settings (updateSettings KframeRate (JNum 60) initial_app)) = JNum 60 \<and>
   saveFormat (settings (updateSettings KframeRate (JNum 60) initial_app)) = JStr ''mp4''"
proof -
  have ne: "KsaveFormat \<noteq> KframeRate" by simp
  have "get_setting KsaveFormat (settings (updateSettings KframeRate (JNum 60) initial_app))
          = get_setting KsaveFormat (settings initial_app)"
    using updateSettings_merges [of KframeRate "JNum 60" initial_app] ne by blast
  moreover have "get_setting KframeRate (settings (updateSettings KframeRate (JNum 60) initial_app))
          = JNum 60"
    using updateSettings_merges [of KframeRate "JNum 60" initial_app] by blast
  ultimately show ?thesis
    by (simp add: initial_app_def DEFAULT_SETTINGS_def)
qed

lemma startRecording_success:
  assumes "mode (startRecording env s) = RECORDING"
  shows "\<exists>r. mediaRecorderRef (startRecording env s) = Some r \<and>
             mimeType r = select_mimeType (settings s) (isTypeSupported env)"
  using assms
  by (auto simp add: startRecording_def startRecording_catch_def Let_def
      split: option.splits if_splits)

lemma find_first:
  "List.find P xs = Some x \<Longrightarrow> \<exists>i<length xs. x = xs ! i \<and> P x \<and> (\<forall>j<i. \<not> P (xs ! j))"
  by (auto simp add: find_Some_iff)

lemma find_none: "List.find P xs = None \<Longrightarrow> \<forall>t\<in>set xs. \<not> P t"
  by (simp add: find_None_iff)

lemma select_mimeType_mp4:
  assumes "saveFormat st = JStr ''mp4''"
  shows "(\<exists>i<length mp4Types.
            select_mimeType st supp = mp4Types ! i \<and> supp (select_mimeType st supp) \<and>
            (\<forall>j<i. \<not> supp (mp4Types ! j))) \<or>
         ((\<forall>t\<in>set mp4Types. \<not> supp t) \<and> select_mimeType st supp = ''video/webm;codecs=vp9'')"
proof (cases "List.find supp mp4Types")
  case None
  then show ?thesis using assms find_none [OF None] by (simp add: select_mimeType_def)
next
  case (Some t)
  then have "select_mimeType st supp = t" using assms by (simp add: select_mimeType_def)
  then show ?thesis using find_first [OF Some] by auto
qed

text \<open>
  C4, amended.  When a recording has started with the save format \<open>mp4\<close>, the
  recorder's mime type is the first of the three candidates that the browser reports as
  supported, or \<open>video/webm;codecs=vp9\<close> when it supports none of them; with any other
  save format the candidates are not probed and the mime type is
  \<open>video/webm;codecs=vp9\<close>.
\<close>

theorem recorder_mime_type:
  assumes "mode (startRecording env s) = RECORDING"
  shows "\<exists>r. mediaRecorderRef (startRecording env s) = Some r \<and>
           (if saveFormat (settings s) = JStr ''mp4'' then
              (\<exists>i<length mp4Types.
                  mimeType r = mp4Types ! i \<and> isTypeSupported env (mimeType r) \<and>
                  (\<forall>j<i. \<not> isTypeSupported env (mp4Types ! j))) \<or>
              ((\<forall>t\<in>set mp4Types. \<not> isTypeSupported env t) \<and>
               mimeType r = ''video/webm;codecs=vp9'')
            else mimeType r = ''video/webm;codecs=vp9'')"
proof -
  obtain r where r: "mediaRecorderRef (startRecording env s) = Some r"
    "mimeType r = select_mimeType (settings s) (isTypeSupported env)"
    using startRecording_success [OF assms] by blast
  show ?thesis
  proof (cases "saveFormat (settings s) = JStr ''mp4''")
    case True
    then show ?thesis
      using r select_mimeType_mp4 [OF True, of "isTypeSupported env"] by simp
  next
    case False
    then show ?thesis using r by (simp add: select_mimeType_def)
  qed
qed

lemma webm_run:
  "startRecording mp4_browser webm_app =
     webm_app\<lparr>streamRef := Some live_screen,
       mediaRecorderRef := Some \<lparr>state = Recording, mimeType = ''video/webm;codecs=vp9'',
          videoBitsPerSecond = JNum 5000000, timeslice = Some 1000, onstopFormat = JStr ''webm''\<rparr>,
       chunksRef := [], mode := RECORDING, recordingTime := 0, timerRef := Some 1,
       activeTimers := [1]\<rparr>"
  by (simp add: startRecording_def mp4_browser_def webm_app_def updateSettings_def initial_app_def
      DEFAULT_SETTINGS_def live_screen_def getVideoTracks_def select_mimeType_def mp4_and_vp9_def Let_def)

text \<open>
  C4, as stated, fails for the save format \<open>webm\<close>: in a browser that supports the
  second candidate \<open>video/mp4\<close> (and not the first), a recording started with that
  format is still encoded as \<open>video/webm;codecs=vp9\<close>.
\<close>

theorem webm_setting_skips_probe:
  "mode (startRecording mp4_browser webm_app) = RECORDING \<and>
   \<not> isTypeSupported mp4_browser (mp4Types ! 0) \<and>
   isTypeSupported mp4_browser (mp4Types ! 1) \<and>
   map_option mimeType (mediaRecorderRef (startRecording mp4_browser webm_app))
     = Some ''video/webm;codecs=vp9'' \<and>
   mp4Types ! 1 \<noteq> ''video/webm;codecs=vp9''"
  by (simp add: webm_run) (simp add: mp4_browser_def mp4Types_def mp4_and_vp9_def)

lemma mp4_run_mode: "mode (startRecording mp4_browser initial_app) = RECORDING"
  by (simp add: startRecording_def mp4_browser_def initial_app_def
      DEFAULT_SETTINGS_def live_screen_def getVideoTracks_def select_mimeType_def mp4_and_vp9_def mp4Types_def Let_def)

theorem recorder_mime_type_witness:
  "mode (startRecording mp4_browser initial_app) = RECORDING \<and>
   saveFormat (settings initial_app) = JStr ''mp4'' \<and>
   (\<exists>r. mediaRecorderRef (startRecording mp4_browser initial_app) = Some r \<and>
        mimeType r = ''video/mp4'')"
proof -
  have fmt: "saveFormat (settings initial_app) = JStr ''mp4''"
    by (simp add: initial_app_def DEFAULT_SETTINGS_def)
  obtain r where r: "mediaRecorderRef (startRecording mp4_browser initial_app) = Some r"
    and c: "(\<exists>i<length mp4Types.
                  mimeType r = mp4Types ! i \<and> isTypeSupported mp4_browser (mimeType r) \<and>
                  (\<forall>j<i. \<not> isTypeSupported mp4_browser (mp4Types ! j))) \<or>
              ((\<forall>t\<in>set mp4Types. \<not> isTypeSupported mp4_browser t) \<and>
               mimeType r = ''video/webm;codecs=vp9'')"
    using recorder_mime_type [OF mp4_run_mode] fmt by auto
  have supp: "isTypeSupported mp4_browser t \<longleftrightarrow> t = ''video/mp4'' \<or> t = ''video/webm;codecs=vp9''" for t
    by (simp add: mp4_browser_def mp4_and_vp9_def)
  have "mimeType r = ''video/mp4''"
    using c
  proof (elim disjE exE conjE)
    fix i
    assume i: "i < length mp4Types" "mimeType r = mp4Types ! i"
      and s: "isTypeSupported mp4_browser (mimeType r)"
      and b: "\<forall>j<i. \<not> isTypeSupported mp4_browser (mp4Types ! j)"
    from i(1) have "i = 0 \<or> i = 1 \<or> i = 2"
      by (auto simp add: mp4Types_def)
    then show ?thesis
    proof (elim disjE)
      assume "i = 0"
      then show ?thesis using i(2) s by (simp add: supp mp4Types_def)
    next
      assume "i = 1"
      then show ?thesis using i(2) by (simp add: mp4Types_def)
    next
      assume "i = 2"
      then have "\<not> isTypeSupported mp4_browser (mp4Types ! 1)" using b by simp
      then show ?thesis by (simp add: supp mp4Types_def)
    qed
  next
    assume "\<forall>t\<in>set mp4Types. \<not> isTypeSupported mp4_browser t"
    then have "\<not> isTypeSupported mp4_browser ''video/mp4''"
      by (simp add: mp4Types_def)
    then show ?thesis by (simp add: supp)
  qed
  then show ?thesis using mp4_run_mode fmt r by simp
qed

text \<open>
  C9.  When the stream request of the screenshot flow fails, the call returns with
  the mode and \<open>screenshotSrc\<close> as they were; the only trace is one line on the
  console.
\<close>

theorem screenshot_failure_keeps_state:
  assumes "getDisplayMedia env
             \<lparr>videoFrameRate = None, videoDisplaySurface = Some ''monitor'',
              audioConstraints = False\<rparr> = None"
  shows "\<exists>s'. takeScreenshot env s = Returned (s', None) \<and>
              mode s' = mode s \<and> screenshotSrc s' = screenshotSrc s \<and>
              console s' = console s @ [''Screenshot failed:''] \<and>
              s'\<lparr>console := console s\<rparr> = s"
  using assms by (simp add: takeScreenshot_def)

theorem screenshot_failure_keeps_state_witness:
  "getDisplayMedia cancelling_browser
             \<lparr>videoFrameRate = None, videoDisplaySurface = Some ''monitor'',
              audioConstraints = False\<rparr> = None \<and>
   (\<exists>s'. takeScreenshot cancelling_browser initial_app = Returned (s', None) \<and>
         mode s' = IDLE \<and> screenshotSrc s' = None)"
proof -
  have h: "getDisplayMedia cancelling_browser
             \<lparr>videoFrameRate = None, videoDisplaySurface = Some ''monitor'',
              audioConstraints = False\<rparr> = None"
    by (simp add: cancelling_browser_def)
  have i: "mode initial_app = IDLE" "screenshotSrc initial_app = None"
    by (simp_all add: initial_app_def)
  show ?thesis
    using screenshot_failure_keeps_state [OF h, of initial_app] h i by auto
qed

lemma stop_track_idem: "stop_track (stop_track t) = stop_track t"
  by (simp add: stop_track_def)

text \<open>
  C10.  Calling \<open>stopRecording\<close> a second time leaves the state exactly as the first
  call left it, with the mode idle.
\<close>

theorem stopRecording_idempotent:
  "stopRecording (stopRecording s) = stopRecording s \<and> mode (stopRecording s) = IDLE"
  by (auto simp add: stopRecording_def clearInterval_def Let_def stop_track_idem o_def
      split: option.splits)

lemma stopRecording_releases:
  "mode (stopRecording s) = IDLE \<and>
   streamRef (stopRecording s) = map_option (map stop_track) (streamRef s) \<and>
   (\<forall>h. timerRef s = Some h \<and> h \<noteq> 0 \<longrightarrow> h \<notin> set (activeTimers (stopRecording s)))"
  by (auto simp add: stopRecording_def clearInterval_def Let_def split: option.splits)

text \<open>
  C1.  An error during \<open>startRecording\<close> that happens after the stream has been
  obtained: the recorder cannot be constructed, the application is back in idle mode,
  and the track of the stream held in \<open>streamRef\<close> is still live.
\<close>

theorem failed_start_leaves_tracks_live:
  "mode (startRecording no_encoder_browser initial_app) = IDLE \<and>
   streamRef (startRecording no_encoder_browser initial_app)
     = Some [\<lparr>kind = VideoTrack, readyState = Live\<rparr>]"
  by (simp add: startRecording_def startRecording_catch_def no_encoder_browser_def initial_app_def
      live_screen_def getVideoTracks_def Let_def)

end
